theory Spec2Isabelle
  imports Complex_Main
begin

section \<open>Text\<close>

text \<open>
  JavaScript strings are sequences of UTF-16 code units and Python strings are sequences
  of code points. Every literal of the sources lies in the Basic Multilingual Plane, where
  the two agree, so a text is a list of numbers. \<open>asc\<close> embeds an ASCII literal.
\<close>

type_synonym ustring = "nat list"

definition asc :: "string \<Rightarrow> ustring" where
  "asc s = map of_char s"

section \<open>The chat client: \<open>sendMessage\<close> of ChatContainer.tsx\<close>

subsection \<open>The email-intent test\<close>








subsection \<open>Routing of a message\<close>

text \<open>
  \<^verbatim>\<open>
  const sendMessage = async (messageText: string) => {
      if (!messageText.trim() || isLoading) return;
      const userMessage = { id: Date.now().toString(), role: "user", content: messageText.trim() };
      setMessages((prev) => [...prev, userMessage]);
      setInput("");
      setIsLoading(true);
      try {
          const isEmailQuery = /^(...)/i.test(messageText.trim());
          if (isEmailQuery) {
              const response = await fetch("http://localhost:8000/api/emails/list");
              if (response.ok) {
                  const data = await response.json();
                  ... setMessages((prev) => [...prev, assistantMessage]);
                  setIsLoading(false);
                  return; // Exit early, don't call AI
              }
              // If direct API fails, fall through to AI method
          }
          ...
          const encodedMessage = encodeURIComponent(userMessage.content);
          const eventSource = new EventSource(...);
          ...
      } catch (outerError) {
          ... content: OUTER_ERROR_TEXT ...
          setIsLoading(false);
      }
  };
  \<close>
  \<^verbatim>\<open>OUTER_ERROR_TEXT\<close> stands for the fixed Vietnamese text of the source, given below by
  its code points. The answer of the network to \<open>fetch\<close> is an input of the model: the
  request is rejected, or a response arrives with its \<open>ok\<close> flag and a body. Of the body
  the code reads \<open>data.content\<close>: \<open>response.json()\<close> fails (\<open>Unparsable\<close>), or it gives a
  value whose \<open>content\<close> is a text or is missing (\<open>Parsed None\<close>, the value \<open>undefined\<close>).
\<close>

datatype role = User | Assistant

record chat_message =
  msg_id :: nat
  msg_role :: role
  msg_content :: ustring
  msg_tools :: "ustring list"
  msg_thinking :: ustring



record client =
  messages :: "chat_message list"
  input :: ustring
  isLoading :: bool






subsection \<open>The handlers of the event source\<close>

text \<open>
  A frame of the stream is the sentinel \<^verbatim>\<open>[DONE]\<close>, a text that \<open>JSON.parse\<close> rejects
  (or whose value has no properties to read: the \<open>catch\<close> logs it), or a JSON object. The
  handler reads the fields below of the object; a field is tested for truthiness, so an
  absent field and an empty string count the same. An array (\<open>tools_used\<close>) is truthy
  also when empty.
\<close>

datatype chunk_type = TSessionId | TText | TTool | TDone | TOther

record chunk =
  c_type :: chunk_type
  c_session_id :: "ustring option"
  c_error :: "ustring option"
  c_content :: "ustring option"
  c_name :: "ustring option"
  c_full_response :: "ustring option"
  c_tools_used :: "ustring list option"
  c_thinking :: "ustring option"

datatype sse_data = Done | BadJson | Json chunk

datatype sse_event = OnMessage sse_data | OnError

fun truthy :: "ustring option \<Rightarrow> bool" where
  "truthy None = False"
| "truthy (Some s) = (s \<noteq> [])"

fun val :: "ustring option \<Rightarrow> ustring" where
  "val None = []"
| "val (Some s) = s"

text \<open>
  The variables of the closure, on top of the component state: \<open>closed\<close> records
  \<open>eventSource.close()\<close>, after which the browser dispatches no further event;
  \<open>navigated\<close> lists the calls of \<open>onSessionCreated\<close>. The handlers are those of the first
  version of the component in ChatContainer.tsx; the second version in that file differs in
  recording the id of a session chunk only when the component was given no session id, and
  in one more accumulated field (\<open>debug_info\<close>).
\<close>

record stream = client +
  closed :: bool
  accumulatedContent :: ustring
  accumulatedTools :: "ustring list"
  accumulatedThinking :: ustring
  messageCreated :: bool
  newSessionId :: "ustring option"
  navigated :: "ustring list"

definition open_stream :: "client \<Rightarrow> stream" where
  "open_stream c =
     \<lparr>messages = messages c, input = input c, isLoading = isLoading c,
      closed = False, accumulatedContent = [], accumulatedTools = [],
      accumulatedThinking = [], messageCreated = False, newSessionId = None,
      navigated = []\<rparr>"

definition error_prefix :: ustring where
  "error_prefix = [76, 7895, 105, 58, 32]"

definition connection_error_text :: ustring where
  "connection_error_text =
     [75, 104, 244, 110, 103, 32, 116, 104, 7875, 32, 107, 7871, 116, 32, 110, 7889, 105, 32,
      273, 7871, 110, 32, 115, 101, 114, 118, 101, 114, 46, 32, 86, 117, 105, 32, 108, 242,
      110, 103, 32, 116, 104, 7917, 32, 108, 7841, 105, 46]"

definition set_content :: "nat \<Rightarrow> ustring \<Rightarrow> chat_message list \<Rightarrow> chat_message list" where
  "set_content assistantMessageId txt ms =
     map (\<lambda>m. if msg_id m = assistantMessageId then m\<lparr>msg_content := txt\<rparr> else m) ms"

definition onmessage :: "bool \<Rightarrow> nat \<Rightarrow> sse_data \<Rightarrow> stream \<Rightarrow> stream" where
  "onmessage has_callback assistantMessageId d s =
     (if closed s then s
      else case d of
        Done \<Rightarrow>
          s\<lparr>isLoading := False, closed := True,
            navigated := navigated s @
              (if truthy (newSessionId s) \<and> has_callback then [val (newSessionId s)] else [])\<rparr>
      | BadJson \<Rightarrow> s
      | Json ch \<Rightarrow>
          if c_type ch = TSessionId \<and> truthy (c_session_id ch) then
            s\<lparr>newSessionId := c_session_id ch\<rparr>
          else if truthy (c_error ch) then
            s\<lparr>messages :=
                (if \<not> messageCreated s
                 then messages s @
                        [\<lparr>msg_id = assistantMessageId, msg_role = Assistant,
                          msg_content = error_prefix @ val (c_error ch),
                          msg_tools = [], msg_thinking = []\<rparr>]
                 else set_content assistantMessageId (error_prefix @ val (c_error ch)) (messages s)),
              isLoading := False, closed := True\<rparr>
          else
            let content1 = (if c_type ch = TText \<and> truthy (c_content ch)
                            then accumulatedContent s @ val (c_content ch)
                            else accumulatedContent s);
                tools1 = (if c_type ch = TTool \<and> truthy (c_name ch)
                          then accumulatedTools s @ [val (c_name ch)]
                          else accumulatedTools s);
                content2 = (if c_type ch = TDone \<and> truthy (c_full_response ch)
                            then val (c_full_response ch) else content1);
                tools2 = (case c_tools_used ch of Some ts \<Rightarrow> ts | None \<Rightarrow> tools1);
                thinking1 = (if truthy (c_thinking ch) then val (c_thinking ch)
                             else accumulatedThinking s);
                s1 = s\<lparr>accumulatedContent := content2, accumulatedTools := tools2,
                       accumulatedThinking := thinking1\<rparr>
            in if \<not> messageCreated s \<and> content2 \<noteq> [] then
                 s1\<lparr>messages := messages s @
                      [\<lparr>msg_id = assistantMessageId, msg_role = Assistant,
                        msg_content = content2, msg_tools = tools2, msg_thinking = thinking1\<rparr>],
                    messageCreated := True\<rparr>
               else if messageCreated s then
                 s1\<lparr>messages :=
                      map (\<lambda>m. if msg_id m = assistantMessageId
                               then m\<lparr>msg_content := content2, msg_tools := tools2,
                                      msg_thinking := thinking1\<rparr>
                               else m) (messages s)\<rparr>
               else s1)"

definition onerror :: "nat \<Rightarrow> stream \<Rightarrow> stream" where
  "onerror assistantMessageId s =
     (if closed s then s
      else s\<lparr>messages :=
               (if \<not> messageCreated s
                then messages s @
                       [\<lparr>msg_id = assistantMessageId, msg_role = Assistant,
                         msg_content = connection_error_text, msg_tools = [], msg_thinking = []\<rparr>]
                else if accumulatedContent s = []
                then set_content assistantMessageId connection_error_text (messages s)
                else messages s),
             isLoading := False, closed := True\<rparr>)"

fun handle :: "bool \<Rightarrow> nat \<Rightarrow> sse_event \<Rightarrow> stream \<Rightarrow> stream" where
  "handle has_callback aid (OnMessage d) s = onmessage has_callback aid d s"
| "handle has_callback aid OnError s = onerror aid s"

fun run :: "bool \<Rightarrow> nat \<Rightarrow> sse_event list \<Rightarrow> stream \<Rightarrow> stream" where
  "run has_callback aid [] s = s"
| "run has_callback aid (ev # evs) s = run has_callback aid evs (handle has_callback aid ev s)"

text \<open>Chunks as the backend sends them: a piece of text, and an error.\<close>

definition text_chunk :: "ustring \<Rightarrow> chunk" where
  "text_chunk t =
     \<lparr>c_type = TText, c_session_id = None, c_error = None, c_content = Some t, c_name = None,
      c_full_response = None, c_tools_used = None, c_thinking = None\<rparr>"

definition error_only :: "ustring \<Rightarrow> chunk" where
  "error_only e =
     \<lparr>c_type = TOther, c_session_id = None, c_error = Some e, c_content = None, c_name = None,
      c_full_response = None, c_tools_used = None, c_thinking = None\<rparr>"

definition idle_client :: client where
  "idle_client = \<lparr>messages = [], input = [], isLoading = False\<rparr>"


text \<open>The events at which a handler closes the event source.\<close>

fun is_error_chunk :: "chunk \<Rightarrow> bool" where
  "is_error_chunk ch \<longleftrightarrow>
     \<not> (c_type ch = TSessionId \<and> truthy (c_session_id ch)) \<and> truthy (c_error ch)"

fun closes :: "sse_event \<Rightarrow> bool" where
  "closes OnError = True"
| "closes (OnMessage Done) = True"
| "closes (OnMessage BadJson) = False"
| "closes (OnMessage (Json ch)) = is_error_chunk ch"

section \<open>The streaming endpoint: \<open>chat_stream\<close> of backend/routers/chat.py\<close>

text \<open>
  \<^verbatim>\<open>
  async def generate():
      # Auto-create session if not provided
      if not session_id:
          new_session = service.create_session()
          yield f"data: {json.dumps({'type': 'session_id', 'session_id': new_session.id})}\n\n"
      # Stream response from Gemma
      async for chunk in stream_chat_with_gemma(message, session_id, db):
          yield f"data: {json.dumps(chunk)}\n\n"
      yield "data: [DONE]\n\n"
  \<close>
  The agent's generator \<open>stream_chat_with_gemma\<close> is an input: the chunks it yields and
  whether it then raises instead of finishing. \<open>generate\<close> has no handler, so an exception
  of the agent's generator ends the response after the frames already sent.
\<close>

datatype frame = FSession ustring | FChunk chunk | FDone

definition generate :: "ustring option \<Rightarrow> ustring \<Rightarrow> chunk list \<Rightarrow> bool \<Rightarrow> frame list" where
  "generate session_id new_session_id inner raised =
     (if \<not> truthy session_id then [FSession new_session_id] else [])
     @ map FChunk inner
     @ (if raised then [] else [FDone])"

text \<open>
  What the client's event source makes of the frames: each frame is a message event, and
  the end of the response is an error event (the event source lost its connection).
\<close>

fun deliver :: "frame \<Rightarrow> sse_event" where
  "deliver (FSession sid) =
     OnMessage (Json \<lparr>c_type = TSessionId, c_session_id = Some sid, c_error = None,
                      c_content = None, c_name = None, c_full_response = None,
                      c_tools_used = None, c_thinking = None\<rparr>)"
| "deliver (FChunk ch) = OnMessage (Json ch)"
| "deliver FDone = OnMessage Done"

definition client_events :: "frame list \<Rightarrow> sse_event list" where
  "client_events frames = map deliver frames @ [OnError]"

text \<open>
  The order the specification gives for the chunks of a turn, in its words: zero-or-one
  session_started, zero-or-more text_delta/tool_invoked interleaved, then the terminal
  chunk, done or (substituting for it) error, after which nothing follows.
\<close>

datatype kind = session_started | text_delta | tool_invoked | error_chunk | done_chunk | other_chunk

fun kind_of :: "frame \<Rightarrow> kind" where
  "kind_of (FSession sid) = session_started"
| "kind_of FDone = done_chunk"
| "kind_of (FChunk ch) =
     (if c_type ch = TSessionId \<and> truthy (c_session_id ch) then session_started
      else if truthy (c_error ch) then error_chunk
      else if c_type ch = TText then text_delta
      else if c_type ch = TTool then tool_invoked
      else other_chunk)"

fun spec_body :: "kind list \<Rightarrow> bool" where
  "spec_body [] = False"
| "spec_body [k] = (k = done_chunk \<or> k = error_chunk)"
| "spec_body (k # ks) = ((k = text_delta \<or> k = tool_invoked) \<and> spec_body ks)"

fun spec_order :: "kind list \<Rightarrow> bool" where
  "spec_order (session_started # ks) = spec_body ks"
| "spec_order ks = spec_body ks"

section \<open>The memory store: the retry loop of the thread-safe ChromaDB wrapper\<close>

text \<open>
  \<^verbatim>\<open>
  for attempt in range(MAX_RETRIES):
      try:
          with _chroma_lock:
              # operation
              break
      except Exception as e:
          if attempt < MAX_RETRIES - 1:
              time.sleep(RETRY_DELAY * (attempt + 1))  # 0.5s, 1.0s, 1.5s
  \<close>
  The engine is an input: \<open>engine k\<close> is what the operation does at attempt \<open>k\<close> (counted
  from 0), an exception or a value. The loop returns the sleeps it made, in seconds, and the
  value of the attempt that succeeded, if one did. \<open>n\<close> counts the attempts left in the
  range. \<open>RETRY_DELAY\<close> is a Python float; its products with the small attempt numbers
  are exact in binary floating point for the value 0.5 of the source, and the model
  computes them in the reals.
\<close>

datatype engine_error = TransientLock | OtherError

fun retry_loop ::
  "nat \<Rightarrow> real \<Rightarrow> (nat \<Rightarrow> engine_error + 'a) \<Rightarrow> nat \<Rightarrow> nat \<Rightarrow> real list \<Rightarrow> real list \<times> 'a option" where
  "retry_loop MAX_RETRIES RETRY_DELAY engine attempt 0 sleeps = (sleeps, None)"
| "retry_loop MAX_RETRIES RETRY_DELAY engine attempt (Suc n) sleeps =
     (case engine attempt of
        Inr v \<Rightarrow> (sleeps, Some v)
      | Inl e \<Rightarrow>
          retry_loop MAX_RETRIES RETRY_DELAY engine (Suc attempt) n
            (if int attempt < int MAX_RETRIES - 1
             then sleeps @ [RETRY_DELAY * real (attempt + 1)] else sleeps))"

definition with_retry :: "nat \<Rightarrow> real \<Rightarrow> (nat \<Rightarrow> engine_error + 'a) \<Rightarrow> real list \<times> 'a option" where
  "with_retry MAX_RETRIES RETRY_DELAY engine =
     retry_loop MAX_RETRIES RETRY_DELAY engine 0 MAX_RETRIES []"

definition MAX_RETRIES_default :: nat where
  "MAX_RETRIES_default = 3"

definition RETRY_DELAY_default :: real where
  "RETRY_DELAY_default = 1 / 2"

text \<open>
  The operations that run the loop. Their bodies are not part of the sources; the document
  that shows the loop says what they give back when the store stays unavailable:
  \<^verbatim>\<open>
  - All memory operations return error messages instead of crashing
  - save_to_memory() returns descriptive error strings on failure
  - query_memory() returns empty list if database is unavailable
  - get_memory_by_id() returns None on failure
  \<close>
  A value that an operation returns is a Python value: a string, a list, \<open>None\<close>, or
  something else (\<open>PyOther\<close>). When an attempt succeeds the operation returns the value of
  that attempt. The text of the error string is not given and is a parameter.
  \<open>query_memory_retry\<close> is the source's \<open>query_memory\<close>; the plain name is the parameter
  of the agent's step below.
\<close>

datatype 'm py_value = PyStr ustring | PyList "'m list" | PyNone | PyOther 'm

definition or_else :: "real list \<times> 'v option \<Rightarrow> 'v \<Rightarrow> real list \<times> 'v" where
  "or_else r fallback = (case r of (sleeps, Some v) \<Rightarrow> (sleeps, v) | (sleeps, None) \<Rightarrow> (sleeps, fallback))"

definition save_to_memory ::
  "nat \<Rightarrow> real \<Rightarrow> ustring \<Rightarrow> (nat \<Rightarrow> engine_error + 'm py_value) \<Rightarrow> real list \<times> 'm py_value" where
  "save_to_memory MAX_RETRIES RETRY_DELAY error_string engine =
     or_else (with_retry MAX_RETRIES RETRY_DELAY engine) (PyStr error_string)"

definition query_memory_retry ::
  "nat \<Rightarrow> real \<Rightarrow> (nat \<Rightarrow> engine_error + 'm py_value) \<Rightarrow> real list \<times> 'm py_value" where
  "query_memory_retry MAX_RETRIES RETRY_DELAY engine =
     or_else (with_retry MAX_RETRIES RETRY_DELAY engine) (PyList [])"

definition get_memory_by_id ::
  "nat \<Rightarrow> real \<Rightarrow> (nat \<Rightarrow> engine_error + 'm py_value) \<Rightarrow> real list \<times> 'm py_value" where
  "get_memory_by_id MAX_RETRIES RETRY_DELAY engine =
     or_else (with_retry MAX_RETRIES RETRY_DELAY engine) PyNone"

section \<open>The agent: memory query, error handling, tool wrapper\<close>

subsection \<open>Skipping the memory query for simple messages\<close>

text \<open>
  \<^verbatim>\<open>
  simple_greetings = ["ch<U+00E0>o", "hi", "hello", "hey", "ok"]
  is_simple = any(g in user_message.lower() for g in simple_greetings) and len(user_message) < 20

  if not is_simple:
      memories = query_memory(user_message, n_results=2)  # Reduced to 2
  \<close>
  \<open>contains sub s\<close> is Python's \<open>sub in s\<close> on strings. \<open>str.lower\<close> is the parameter
  \<open>lower\<close>; \<open>ascii_lower\<close> is its restriction to ASCII, for concrete inputs.
\<close>

fun contains :: "ustring \<Rightarrow> ustring \<Rightarrow> bool" where
  "contains sub [] = (sub = [])"
| "contains sub (c # cs) = (take (length sub) (c # cs) = sub \<or> contains sub cs)"

definition ascii_lower :: "ustring \<Rightarrow> ustring" where
  "ascii_lower s = map (\<lambda>c. if 65 \<le> c \<and> c \<le> 90 then c + 32 else c) s"

definition simple_greetings :: "ustring list" where
  "simple_greetings = [[99, 104, 224, 111], asc ''hi'', asc ''hello'', asc ''hey'', asc ''ok'']"

definition is_simple :: "(ustring \<Rightarrow> ustring) \<Rightarrow> ustring \<Rightarrow> bool" where
  "is_simple lower user_message \<longleftrightarrow>
     list_ex (\<lambda>g. contains g (lower user_message)) simple_greetings \<and> length user_message < 20"

text \<open>
  The step returns the calls of \<open>query_memory\<close> it made, each with its text and its
  \<open>n_results\<close>, and the memories it got, if it asked.
\<close>

definition memory_step ::
  "(ustring \<Rightarrow> ustring) \<Rightarrow> (ustring \<Rightarrow> nat \<Rightarrow> 'm list) \<Rightarrow> ustring \<Rightarrow> (ustring \<times> nat) list \<times> 'm list option" where
  "memory_step lower query_memory user_message =
     (if \<not> is_simple lower user_message
      then ([(user_message, 2)], Some (query_memory user_message 2))
      else ([], None))"

text \<open>A store without memories, for concrete runs.\<close>

definition no_memories :: "ustring \<Rightarrow> nat \<Rightarrow> ustring list" where
  "no_memories query n_results = []"

subsection \<open>\<open>chat_with_agent\<close>\<close>

text \<open>
  \<^verbatim>\<open>
  async def chat_with_agent(...) -> dict:
      result = {"response": "", "error": None}
      try:
          try:
              agent = get_or_create_agent()
          except Exception as e:
              result["error"] = str(e)
              result["response"] = INIT_ERROR_TEXT
              return result
          try:
              memories = query_memory(user_message)
          except:
              pass  # Continue without memories
          agent_response = await loop.run_in_executor(...)
          if not result["response"]:
              result["response"] = NO_RESPONSE_TEXT
      except Exception as e:
          if "tool_use_failed" in str(e).lower():
              result["response"] = TOOL_FAILED_TEXT
          elif "rate_limit" in str(e).lower():
              result["response"] = RATE_LIMIT_TEXT
          else:
              result["response"] = f"<U+274C> L<U+1ED7>i: {str(e)[:150]}"
      return result
  \<close>
  The upper-case names stand for the fixed Vietnamese texts of the source, given below by
  their code points, and \<^verbatim>\<open><U+274C>\<close> for the code point of that number.
  An exception is represented by its text \<open>str(e)\<close>. The outcomes of creating the agent,
  of the memory query and of invoking the agent are inputs; the text the agent produced is
  what the elided lines store in \<open>result["response"]\<close>.
\<close>

record chat_result =
  response :: ustring
  error :: "ustring option"

definition init_error_text :: ustring where
  "init_error_text =
     [10060, 32, 76, 7895, 105, 32, 107, 104, 7903, 105, 32, 116, 7841, 111, 32, 97, 103, 101,
      110, 116, 46, 46, 46]"

definition no_response_text :: ustring where
  "no_response_text =
     [88, 105, 110, 32, 108, 7895, 105, 44, 32, 107, 104, 244, 110, 103, 32, 116, 7841, 111, 32,
      273, 432, 7907, 99, 32, 99, 226, 117, 32, 116, 114, 7843, 32, 108, 7901, 105, 46]"

definition tool_failed_text :: ustring where
  "tool_failed_text =
     [10060, 32, 67, 243, 32, 108, 7895, 105, 32, 107, 104, 105, 32, 115, 7917, 32, 100, 7909,
      110, 103, 32, 99, 244, 110, 103, 32, 99, 7909, 46, 46, 46]"

definition rate_limit_text :: ustring where
  "rate_limit_text = [9203, 32, 65, 80, 73, 32, 113, 117, 225, 32, 116, 7843, 105, 46, 46, 46]"

definition raw_error_prefix :: ustring where
  "raw_error_prefix = [10060, 32, 76, 7895, 105, 58, 32]"

definition chat_with_agent ::
  "(ustring \<Rightarrow> ustring) \<Rightarrow> ustring + unit \<Rightarrow> ustring + 'm \<Rightarrow> ustring + ustring \<Rightarrow> chat_result" where
  "chat_with_agent lower get_or_create_agent query_memory invoke =
     (case get_or_create_agent of
        Inl e \<Rightarrow> \<lparr>response = init_error_text, error = Some e\<rparr>
      | Inr agent \<Rightarrow>
          (case invoke of
             Inr agent_response \<Rightarrow>
               \<lparr>response = (if agent_response = [] then no_response_text else agent_response),
                error = None\<rparr>
           | Inl e \<Rightarrow>
               \<lparr>response =
                  (if contains (asc ''tool_use_failed'') (lower e) then tool_failed_text
                   else if contains (asc ''rate_limit'') (lower e) then rate_limit_text
                   else raw_error_prefix @ take 150 e),
                error = None\<rparr>))"

subsection \<open>\<open>safe_tool\<close>\<close>

text \<open>
  \<^verbatim>\<open>
  def safe_tool(func):
      """Wrapper to validate and catch errors."""
      def wrapper(*args, **kwargs):
          try:
              # Type validation
              # Range checking
              # Call original function
              result = func(*args, **kwargs)

              # Ensure string output
              return str(result) if result else "<U+2705> Done"
          except Exception as e:
              return f"<U+274C> Error: {str(e)[:100]}"
      return wrapper
  \<close>
  An exception is, as far as the wrapper can tell, an instance of \<open>Exception\<close> whose
  \<open>str()\<close> is a text, an instance of \<open>Exception\<close> whose \<open>str()\<close> itself raises
  (\<open>Exc None\<close>), or an exception outside \<open>Exception\<close>, which \<open>except Exception\<close> does not
  catch. Of the value a tool returns the wrapper takes the truth value and the \<open>str()\<close>;
  either may raise. A tool is a function from its arguments to an exception or such a value;
  a call that Python refuses for its arguments (a TypeError) is an exception of the call.
  The validation that the docstring and the first two comments announce is not written out
  in the document: it is the parameter \<open>validation\<close>, which raises or passes.
\<close>

datatype base_exception = SystemExit | KeyboardInterrupt | GeneratorExit | CancelledError










section \<open>The agent loop\<close>

text \<open>
  What the model backend answers to an invocation, what a turn answers with, and how a
  turn ends (section 4.4 of the specification). \<open>UnableToComplete N\<close> is the synthesized
  "unable to complete after N tool calls" payload.
\<close>

datatype 'c reply = FinalAnswer ustring | ToolCalls "'c list" | BackendError

datatype payload = ModelAnswer ustring | UnableToComplete nat

datatype turn_end = Answering payload | Failed

text \<open>
  Modelled from the spec: the loop of the agent (\<open>GemmaAgent.chat\<close>) is not part of the
  sources, which state only its bound (\<^verbatim>\<open>Max iterations | 5 tool calls per message\<close>).
  Section 4.4 of the specification: \<open>Invoking\<close> sends the context to the model backend and
  receives either a final answer or one or more requested tool calls, or fails; the
  requested calls are executed in the order requested and their results merged into the
  working memory; a fixed maximum number of tool round-trips per turn; exceeding it forces
  a transition to \<open>Answering\<close> with a synthesized "unable to complete after N tool calls"
  payload.

  \<open>left\<close> is the number of round-trips still allowed and \<open>trips\<close> the number made. The
  result is the state the turn ends in, the round-trips made and the working memory.
\<close>

fun agent_loop ::
  "nat \<Rightarrow> ('h \<Rightarrow> 'c reply) \<Rightarrow> ('c \<Rightarrow> 'h \<Rightarrow> 'h) \<Rightarrow> nat \<Rightarrow> nat \<Rightarrow> 'h \<Rightarrow> turn_end \<times> nat \<times> 'h" where
  "agent_loop cap invoke execute 0 trips h =
     (case invoke h of
        FinalAnswer t \<Rightarrow> (Answering (ModelAnswer t), trips, h)
      | ToolCalls cs \<Rightarrow> (Answering (UnableToComplete cap), trips, h)
      | BackendError \<Rightarrow> (Failed, trips, h))"
| "agent_loop cap invoke execute (Suc left) trips h =
     (case invoke h of
        FinalAnswer t \<Rightarrow> (Answering (ModelAnswer t), trips, h)
      | ToolCalls cs \<Rightarrow>
          agent_loop cap invoke execute left (Suc trips) (foldl (\<lambda>h c. execute c h) h cs)
      | BackendError \<Rightarrow> (Failed, trips, h))"

text \<open>
  Modelled from the spec: a turn starts the loop with the whole bound left and no round-trip
  made; the default of the bound is 5.
\<close>

definition run_turn ::
  "nat \<Rightarrow> ('h \<Rightarrow> 'c reply) \<Rightarrow> ('c \<Rightarrow> 'h \<Rightarrow> 'h) \<Rightarrow> 'h \<Rightarrow> turn_end \<times> nat \<times> 'h" where
  "run_turn cap invoke execute h = agent_loop cap invoke execute cap 0 h"

definition tool_round_trip_cap :: nat where
  "tool_round_trip_cap = 5"

section \<open>The records of the memory store\<close>

text \<open>
  The store operations on records (\<open>update_long_term_memory\<close> and the functions it calls)
  are not part of the sources, which show only the call \<^verbatim>\<open>collection.upsert(...)\<close> under
  the lock. The data follows section 3 of the specification: a MemoryRecord is a (tier, id,
  text, embedding, metadata, created_at) tuple. Ids are numbers handed out in order; the
  embedding function and the clock are parameters.
\<close>

datatype tier = session_tier | permanent_tier | project_tier

datatype meta_value = MText ustring | MRef nat

record memory_record =
  rec_tier :: tier
  rec_id :: nat
  rec_text :: ustring
  rec_embedding :: "real list"
  rec_metadata :: "(string \<times> meta_value) list"
  rec_created_at :: nat

record memory_store =
  records :: "nat \<rightharpoonup> memory_record"
  next_id :: nat

datatype lookup_error = NotFound

definition empty_store :: memory_store where
  "empty_store = \<lparr>records = Map.empty, next_id = 0\<rparr>"

text \<open>
  Modelled from the spec: \<open>put\<close> of section 4.2, which is not part of the sources. It embeds
  the text, writes the record and returns its id; each call creates a new record.
\<close>

definition put ::
  "(ustring \<Rightarrow> real list) \<Rightarrow> nat \<Rightarrow> memory_store \<Rightarrow> tier \<Rightarrow> ustring \<Rightarrow> (string \<times> meta_value) list
     \<Rightarrow> nat \<times> memory_store" where
  "put embedder now st t txt metadata =
     (let i = next_id st
      in (i, st\<lparr>records := (records st)(i \<mapsto>
                   \<lparr>rec_tier = t, rec_id = i, rec_text = txt, rec_embedding = embedder txt,
                    rec_metadata = metadata, rec_created_at = now\<rparr>),
                next_id := Suc i\<rparr>))"

text \<open>
  Modelled from the spec: \<open>get\<close> of section 4.2, which is not part of the sources. It
  returns the record of the id, or NotFound.
\<close>

definition get :: "memory_store \<Rightarrow> nat \<Rightarrow> lookup_error + memory_record" where
  "get st i = (case records st i of None \<Rightarrow> Inl NotFound | Some r \<Rightarrow> Inr r)"

text \<open>
  Modelled from the spec: \<open>supersede\<close> of section 4.2, which is not part of the sources. It
  writes a new record linked to \<open>old_id\<close> and does not delete the old record: an update
  is a new record plus supersession metadata pointing at the old id. The new record is given
  the tier of the old one.
\<close>

definition supersede ::
  "(ustring \<Rightarrow> real list) \<Rightarrow> nat \<Rightarrow> memory_store \<Rightarrow> nat \<Rightarrow> ustring \<Rightarrow> (string \<times> meta_value) list
     \<Rightarrow> lookup_error + nat \<times> memory_store" where
  "supersede embedder now st old_id new_text metadata =
     (case records st old_id of
        None \<Rightarrow> Inl NotFound
      | Some old \<Rightarrow>
          Inr (put embedder now st (rec_tier old) new_text ((''supersedes'', MRef old_id) # metadata)))"

text \<open>A store holding one permanent record, for concrete runs.\<close>

definition tea_store :: memory_store where
  "tea_store = snd (put (\<lambda>t. []) 10 empty_store permanent_tier (asc ''likes tea'') [])"

definition tea_record :: memory_record where
  "tea_record =
     \<lparr>rec_tier = permanent_tier, rec_id = 0, rec_text = asc ''likes tea'', rec_embedding = [],
      rec_metadata = [], rec_created_at = 10\<rparr>"

text \<open>The writes of a store, and a store after a sequence of them.\<close>

datatype store_write =
    Put tier ustring "(string \<times> meta_value) list"
  | Supersede nat ustring "(string \<times> meta_value) list"

fun apply_write :: "(ustring \<Rightarrow> real list) \<Rightarrow> nat \<Rightarrow> store_write \<Rightarrow> memory_store \<Rightarrow> memory_store" where
  "apply_write embedder now (Put t txt metadata) st = snd (put embedder now st t txt metadata)"
| "apply_write embedder now (Supersede old_id txt metadata) st =
     (case supersede embedder now st old_id txt metadata of
        Inl e \<Rightarrow> st
      | Inr (i, st') \<Rightarrow> st')"

fun apply_writes :: "(ustring \<Rightarrow> real list) \<Rightarrow> nat \<Rightarrow> store_write list \<Rightarrow> memory_store \<Rightarrow> memory_store" where
  "apply_writes embedder now [] st = st"
| "apply_writes embedder now (w # ws) st = apply_writes embedder now ws (apply_write embedder now w st)"

text \<open>Every id in use was handed out: the invariant of a store built from the empty one.\<close>

definition store_ok :: "memory_store \<Rightarrow> bool" where
  "store_ok st \<longleftrightarrow> (\<forall>i \<in> dom (records st). i < next_id st)"

section \<open>Properties of the memory store\<close>

lemma retry_loop_all_fail:
  "(\<forall>k. attempt \<le> k \<and> k < attempt + n \<longrightarrow> isl (engine k)) \<Longrightarrow>
   retry_loop M d engine attempt n sleeps =
     (sleeps @ map (\<lambda>k. d * real (k + 1)) (filter (\<lambda>k. int k < int M - 1) [attempt..<attempt + n]), None)"
proof (induction n arbitrary: attempt sleeps)
  case 0
  then show ?case by simp
next
  case (Suc n)
  from Suc.prems have "isl (engine attempt)" by simp
  then obtain e where e: "engine attempt = Inl e" by (cases "engine attempt") auto
  have rest: "\<forall>k. Suc attempt \<le> k \<and> k < Suc attempt + n \<longrightarrow> isl (engine k)"
    using Suc.prems by simp
  have up: "[attempt..<Suc (attempt + n)] = attempt # [Suc attempt..<Suc (attempt + n)]"
    by (simp add: upt_conv_Cons)
  show ?case
    using Suc.IH[OF rest] e by (simp add: up del: upt_Suc)
qed

lemma retry_loop_success:
  "attempt \<le> k \<Longrightarrow> k < attempt + n \<Longrightarrow> (\<forall>j. attempt \<le> j \<and> j < k \<longrightarrow> isl (engine j)) \<Longrightarrow>
   engine k = Inr v \<Longrightarrow>
   retry_loop M d engine attempt n sleeps =
     (sleeps @ map (\<lambda>k. d * real (k + 1)) (filter (\<lambda>k. int k < int M - 1) [attempt..<k]), Some v)"
proof (induction n arbitrary: attempt sleeps)
  case 0
  then show ?case by simp
next
  case (Suc n)
  show ?case
  proof (cases "attempt = k")
    case True
    with Suc.prems show ?thesis by simp
  next
    case False
    with Suc.prems have lt: "attempt < k" by simp
    with Suc.prems have "isl (engine attempt)" by simp
    then obtain e where e: "engine attempt = Inl e" by (cases "engine attempt") auto
    have up: "[attempt..<k] = attempt # [Suc attempt..<k]"
      using lt by (simp add: upt_conv_Cons)
    have "retry_loop M d engine (Suc attempt) n
            (if int attempt < int M - 1 then sleeps @ [d * real (attempt + 1)] else sleeps) =
          ((if int attempt < int M - 1 then sleeps @ [d * real (attempt + 1)] else sleeps)
             @ map (\<lambda>k. d * real (k + 1)) (filter (\<lambda>k. int k < int M - 1) [Suc attempt..<k]), Some v)"
      using Suc.prems lt by (intro Suc.IH) auto
    then show ?thesis using e by (simp add: up)
  qed
qed

lemma filter_below: "k \<le> M - 1 \<Longrightarrow> filter (\<lambda>j. int j < int M - 1) [0..<k] = [0..<k]"
  by (induction k) auto

lemma filter_range: "filter (\<lambda>j. int j < int M - 1) [0..<M] = [0..<M - 1]"
proof (cases M)
  case 0 then show ?thesis by simp
next
  case (Suc m)
  then show ?thesis using filter_below[of m M] by simp
qed

lemma shifted_range: "map (\<lambda>k. d * real (k + 1)) [0..<n] = map (\<lambda>j. d * real j) [1..<Suc n]"
  by (induction n) auto

lemma sleeps_all:
  "map (\<lambda>k. d * real (k + 1)) (filter (\<lambda>k. int k < int M - 1) [0..<0 + M]) =
   map (\<lambda>j. d * real j) [1..<M]"
proof -
  have e: "[1..<Suc (M - 1)] = [1..<M]" by (cases M) simp_all
  have "filter (\<lambda>k. int k < int M - 1) [0..<0 + M] = [0..<M - 1]"
    using filter_range[of M] by simp
  then have "map (\<lambda>k. d * real (k + 1)) (filter (\<lambda>k. int k < int M - 1) [0..<0 + M]) =
             map (\<lambda>k. d * real (k + 1)) [0..<M - 1]"
    by (simp only:)
  also have "\<dots> = map (\<lambda>j. d * real j) [1..<Suc (M - 1)]"
    by (rule shifted_range)
  finally show ?thesis by (simp only: e)
qed

lemma sleeps_until:
  assumes "k < M"
  shows "map (\<lambda>k. d * real (k + 1)) (filter (\<lambda>k. int k < int M - 1) [0..<k]) =
         map (\<lambda>j. d * real j) [1..<Suc k]"
proof -
  have "k \<le> M - 1" using assms by simp
  then have "filter (\<lambda>j. int j < int M - 1) [0..<k] = [0..<k]" by (rule filter_below)
  then have "map (\<lambda>k. d * real (k + 1)) (filter (\<lambda>k. int k < int M - 1) [0..<k]) =
             map (\<lambda>k. d * real (k + 1)) [0..<k]"
    by (simp only:)
  also have "\<dots> = map (\<lambda>j. d * real j) [1..<Suc k]" by (rule shifted_range)
  finally show ?thesis .
qed

lemma with_retry_all_fail:
  assumes "\<forall>k<M. isl (engine k)"
  shows "with_retry M d engine = (map (\<lambda>j. d * real j) [1..<M], None)"
proof -
  from assms have "retry_loop M d engine 0 M [] =
     ([] @ map (\<lambda>k. d * real (k + 1)) (filter (\<lambda>k. int k < int M - 1) [0..<0 + M]), None)"
    by (intro retry_loop_all_fail) simp
  then show ?thesis
    by (simp only: with_retry_def sleeps_all append_Nil)
qed

lemma with_retry_success:
  assumes "k < M" and "\<forall>j<k. isl (engine j)" and "engine k = Inr v"
  shows "with_retry M d engine = (map (\<lambda>j. d * real j) [1..<Suc k], Some v)"
proof -
  from assms have "retry_loop M d engine 0 M [] =
     ([] @ map (\<lambda>k. d * real (k + 1)) (filter (\<lambda>k. int k < int M - 1) [0..<k]), Some v)"
    by (intro retry_loop_success) simp_all
  then show ?thesis
    using assms(1) by (simp only: with_retry_def sleeps_until append_Nil)
qed

text \<open>
  Claim C1, as the code has it. A store operation is attempted up to \<open>MAX_RETRIES\<close> times;
  after a failed attempt number \<open>n\<close> that is not the last it sleeps \<open>RETRY_DELAY * n\<close> and
  retries. When every attempt fails, the operation has slept \<open>RETRY_DELAY * 1, ...,
  RETRY_DELAY * (MAX_RETRIES - 1)\<close> and does not raise: \<open>save_to_memory\<close> returns its error
  string, \<open>query_memory\<close> the empty list and \<open>get_memory_by_id\<close> \<open>None\<close>. When attempt
  \<open>k + 1\<close> is the first that succeeds (\<open>k < MAX_RETRIES\<close>), the operation has slept
  \<open>RETRY_DELAY * 1, ..., RETRY_DELAY * k\<close> and returns the value of that attempt.
\<close>

theorem store_retry_linear_backoff:
  "((\<forall>k<M. isl (engine k)) \<longrightarrow>
      save_to_memory M d error_string engine = (map (\<lambda>j. d * real j) [1..<M], PyStr error_string)
      \<and> query_memory_retry M d engine = (map (\<lambda>j. d * real j) [1..<M], PyList [])
      \<and> get_memory_by_id M d engine = (map (\<lambda>j. d * real j) [1..<M], PyNone))
   \<and> (\<forall>k v. k < M \<and> (\<forall>j<k. isl (engine j)) \<and> engine k = Inr v \<longrightarrow>
         save_to_memory M d error_string engine = (map (\<lambda>j. d * real j) [1..<Suc k], v)
         \<and> query_memory_retry M d engine = (map (\<lambda>j. d * real j) [1..<Suc k], v)
         \<and> get_memory_by_id M d engine = (map (\<lambda>j. d * real j) [1..<Suc k], v))"
proof (intro conjI impI allI)
  assume a: "\<forall>k<M. isl (engine k)"
  note r = with_retry_all_fail[OF a, of d]
  show "save_to_memory M d error_string engine = (map (\<lambda>j. d * real j) [1..<M], PyStr error_string)"
    by (simp add: save_to_memory_def or_else_def r)
  show "query_memory_retry M d engine = (map (\<lambda>j. d * real j) [1..<M], PyList [])"
    by (simp add: query_memory_retry_def or_else_def r)
  show "get_memory_by_id M d engine = (map (\<lambda>j. d * real j) [1..<M], PyNone)"
    by (simp add: get_memory_by_id_def or_else_def r)
next
  fix k v
  assume a: "k < M \<and> (\<forall>j<k. isl (engine j)) \<and> engine k = Inr v"
  then have r: "with_retry M d engine = (map (\<lambda>j. d * real j) [1..<Suc k], Some v)"
    by (intro with_retry_success) simp_all
  show "save_to_memory M d error_string engine = (map (\<lambda>j. d * real j) [1..<Suc k], v)"
    by (simp add: save_to_memory_def or_else_def r)
  show "query_memory_retry M d engine = (map (\<lambda>j. d * real j) [1..<Suc k], v)"
    by (simp add: query_memory_retry_def or_else_def r)
  show "get_memory_by_id M d engine = (map (\<lambda>j. d * real j) [1..<Suc k], v)"
    by (simp add: get_memory_by_id_def or_else_def r)
qed

text \<open>
  With the defaults of the source, three attempts and half a second: two lock errors and
  then a value for \<open>save_to_memory\<close>, and lock errors throughout for the three operations.
\<close>

theorem store_retry_linear_backoff_witness:
  "save_to_memory MAX_RETRIES_default RETRY_DELAY_default (asc ''Error: memory unavailable'')
      (\<lambda>k. if k < 2 then Inl TransientLock else Inr (PyStr (asc ''id-7'') :: ustring py_value))
     = ([1 / 2, 1], PyStr (asc ''id-7''))
   \<and> save_to_memory MAX_RETRIES_default RETRY_DELAY_default (asc ''Error: memory unavailable'')
      (\<lambda>k. Inl TransientLock :: engine_error + ustring py_value)
     = ([1 / 2, 1], PyStr (asc ''Error: memory unavailable''))
   \<and> get_memory_by_id MAX_RETRIES_default RETRY_DELAY_default
      (\<lambda>k. Inl TransientLock :: engine_error + ustring py_value)
     = ([1 / 2, 1], PyNone)"
proof -
  let ?e = "\<lambda>k::nat. if k < 2 then Inl TransientLock else Inr (PyStr (asc ''id-7'') :: ustring py_value)"
  let ?f = "\<lambda>k::nat. Inl TransientLock :: engine_error + ustring py_value"
  let ?err = "asc ''Error: memory unavailable''"
  have up: "[Suc 0..<3] = [1, 2::nat]" by code_simp
  have h: "(2::nat) < 3 \<and> (\<forall>j<2. isl (?e j)) \<and> ?e 2 = Inr (PyStr (asc ''id-7''))" by simp
  have g: "\<forall>k<3. isl (?f k)" by simp
  have A: "save_to_memory 3 (1 / 2) ?err ?e = (map (\<lambda>j. (1 / 2) * real j) [1..<Suc 2], PyStr (asc ''id-7''))"
    using store_retry_linear_backoff[of 3 ?e "1 / 2" ?err, THEN conjunct2,
        THEN spec[where x = 2], THEN spec[where x = "PyStr (asc ''id-7'')"], THEN mp, OF h]
    by blast
  have B: "save_to_memory 3 (1 / 2) ?err ?f = (map (\<lambda>j. (1 / 2) * real j) [1..<3], PyStr ?err)
         \<and> get_memory_by_id 3 (1 / 2) ?f = (map (\<lambda>j. (1 / 2) * real j) [1..<3], PyNone)"
    using store_retry_linear_backoff[of 3 ?f "1 / 2" ?err, THEN conjunct1, THEN mp, OF g] by blast
  show ?thesis
    using A B by (simp add: MAX_RETRIES_default_def RETRY_DELAY_default_def up)
qed

text \<open>
  When the store stays unavailable \<open>query_memory\<close> gives back the empty list, the value it
  also gives back when the first attempt succeeds and nothing matches: no error reaches
  the caller.
\<close>

theorem store_unavailable_counterexample:
  "query_memory_retry MAX_RETRIES_default RETRY_DELAY_default
      (\<lambda>k. Inl TransientLock :: engine_error + ustring py_value) = ([1 / 2, 1], PyList [])
   \<and> snd (query_memory_retry MAX_RETRIES_default RETRY_DELAY_default
      (\<lambda>k. Inl TransientLock :: engine_error + ustring py_value))
     = snd (query_memory_retry MAX_RETRIES_default RETRY_DELAY_default
      (\<lambda>k. Inr (PyList []) :: engine_error + ustring py_value))"
  by (simp add: query_memory_retry_def or_else_def with_retry_def MAX_RETRIES_default_def
      RETRY_DELAY_default_def numeral_3_eq_3)

subsection \<open>Superseding a record\<close>

lemma store_ok_iff: "store_ok st \<longleftrightarrow> (\<forall>i r. records st i = Some r \<longrightarrow> i < next_id st)"
  by (auto simp: store_ok_def dom_def)

lemma put_ok: "store_ok st \<Longrightarrow> store_ok (snd (put embedder now st t txt metadata))"
  by (auto simp: store_ok_iff put_def Let_def less_Suc_eq)

lemma put_keeps:
  "store_ok st \<Longrightarrow> records st i = Some r \<Longrightarrow>
     records (snd (put embedder now st t txt metadata)) i = Some r"
  by (auto simp: store_ok_iff put_def Let_def)

lemma apply_write_eq:
  "apply_write embedder now w st = st \<or> (\<exists>t txt metadata. apply_write embedder now w st = snd (put embedder now st t txt metadata))"
proof (cases w)
  case (Put t body metadata)
  then show ?thesis by auto
next
  case (Supersede old_id body metadata)
  show ?thesis
  proof (cases "records st old_id")
    case None
    with Supersede show ?thesis by (simp add: supersede_def)
  next
    case (Some old)
    with Supersede have "apply_write embedder now w st =
        snd (put embedder now st (rec_tier old) body ((''supersedes'', MRef old_id) # metadata))"
      by (simp add: supersede_def split: prod.splits)
    then show ?thesis by blast
  qed
qed

lemma apply_write_ok: "store_ok st \<Longrightarrow> store_ok (apply_write embedder now w st)"
  using apply_write_eq[of embedder now w st] by (auto simp: put_ok)

lemma apply_write_keeps:
  "store_ok st \<Longrightarrow> records st i = Some r \<Longrightarrow> records (apply_write embedder now w st) i = Some r"
  using apply_write_eq[of embedder now w st] by (auto simp: put_keeps)

lemma apply_writes_keeps:
  "store_ok st \<Longrightarrow> records st i = Some r \<Longrightarrow> records (apply_writes embedder now ws st) i = Some r"
  by (induction ws arbitrary: st) (simp_all add: apply_write_ok apply_write_keeps)

lemma apply_writes_ok: "store_ok st \<Longrightarrow> store_ok (apply_writes embedder now ws st)"
  by (induction ws arbitrary: st) (simp_all add: apply_write_ok)

lemma store_ok_reachable: "store_ok (apply_writes embedder now ws empty_store)"
proof -
  have "store_ok empty_store" by (simp add: store_ok_def empty_store_def)
  then show ?thesis by (rule apply_writes_ok)
qed

lemma get_Inr: "get st i = Inr r \<longleftrightarrow> records st i = Some r"
  by (simp add: get_def split: option.splits)

text \<open>
  Claim C6. In a store whose ids were all handed out by the store (as in every store built
  from the empty one by writes: \<open>store_ok_reachable\<close>), \<open>supersede\<close> on an
  existing record writes a new record under a new id, carrying the new text and metadata
  that points at the old id, and leaves the old record as it was: \<open>get\<close> of the old id
  returns the original record right after, and after any further sequence of writes.
\<close>

theorem supersede_keeps_old:
  assumes "store_ok st" and "get st old_id = Inr r"
  shows "\<exists>new_id st'.
           supersede embedder now st old_id new_text metadata = Inr (new_id, st')
         \<and> new_id \<noteq> old_id
         \<and> get st' old_id = Inr r
         \<and> (\<exists>r'. get st' new_id = Inr r' \<and> rec_text r' = new_text
                 \<and> map_of (rec_metadata r') ''supersedes'' = Some (MRef old_id))
         \<and> (\<forall>later. get (apply_writes embedder now later st') old_id = Inr r)"
proof -
  from assms(2) have old: "records st old_id = Some r" by (simp add: get_Inr)
  let ?m = "(''supersedes'', MRef old_id) # metadata"
  let ?p = "put embedder now st (rec_tier r) new_text ?m"
  have s: "supersede embedder now st old_id new_text metadata = Inr (fst ?p, snd ?p)"
    using old by (simp add: supersede_def)
  have lt: "old_id < next_id st" using assms(1) old by (auto simp: store_ok_iff)
  have fresh: "fst ?p \<noteq> old_id" using lt by (simp add: put_def Let_def)
  have ok': "store_ok (snd ?p)" using assms(1) by (rule put_ok)
  have keep: "records (snd ?p) old_id = Some r" using assms(1) old by (rule put_keeps)
  have new: "\<exists>r'. get (snd ?p) (fst ?p) = Inr r' \<and> rec_text r' = new_text
                 \<and> map_of (rec_metadata r') ''supersedes'' = Some (MRef old_id)"
    by (simp add: put_def Let_def get_def)
  have later: "\<forall>later. get (apply_writes embedder now later (snd ?p)) old_id = Inr r"
    using apply_writes_keeps[OF ok' keep] by (simp add: get_Inr)
  have "supersede embedder now st old_id new_text metadata = Inr (fst ?p, snd ?p)
         \<and> fst ?p \<noteq> old_id
         \<and> get (snd ?p) old_id = Inr r
         \<and> (\<exists>r'. get (snd ?p) (fst ?p) = Inr r' \<and> rec_text r' = new_text
                 \<and> map_of (rec_metadata r') ''supersedes'' = Some (MRef old_id))
         \<and> (\<forall>later. get (apply_writes embedder now later (snd ?p)) old_id = Inr r)"
    using s fresh keep new later by (simp add: get_Inr)
  then show ?thesis by blast
qed

text \<open>
  Superseding the one record of a store.
\<close>

theorem supersede_keeps_old_witness:
  "\<exists>new_id st'.
      supersede (\<lambda>t. []) 20 tea_store 0 (asc ''likes coffee'') [] = Inr (new_id, st')
    \<and> new_id \<noteq> 0
    \<and> get st' 0 = Inr tea_record"
proof -
  have ok: "store_ok tea_store"
    by (simp add: tea_store_def put_def empty_store_def store_ok_def)
  have old: "get tea_store 0 = Inr tea_record"
    by (simp add: tea_store_def put_def empty_store_def get_def tea_record_def)
  show ?thesis
    using supersede_keeps_old[OF ok old, of "\<lambda>t. []" 20 "asc ''likes coffee''" "[]"] by blast
qed

section \<open>Properties of the chat client and the streaming endpoint\<close>






lemma handle_closed: "closed s \<Longrightarrow> handle cb aid ev s = s"
  by (cases ev) (simp_all add: onmessage_def onerror_def)

lemma run_closed: "closed s \<Longrightarrow> run cb aid evs s = s"
  by (induction evs) (simp_all add: handle_closed)

lemma handle_not_closing:
  assumes "\<not> closes ev" and "\<not> closed s"
  shows "\<not> closed (handle cb aid ev s) \<and> navigated (handle cb aid ev s) = navigated s"
proof (cases ev)
  case (OnMessage d)
  with assms show ?thesis
    by (cases d) (auto simp: onmessage_def Let_def)
next
  case OnError
  with assms show ?thesis by simp
qed

lemma handle_closing:
  assumes "closes ev" and "\<not> closed s"
  shows "closed (handle cb aid ev s) \<and> \<not> isLoading (handle cb aid ev s)"
proof (cases ev)
  case (OnMessage d)
  with assms show ?thesis
    by (cases d) (auto simp: onmessage_def Let_def)
next
  case OnError
  with assms show ?thesis by (simp add: onerror_def)
qed

lemma handle_closing_navigated:
  assumes "closes ev" and "\<not> closed s" and "ev \<noteq> OnMessage Done"
  shows "navigated (handle cb aid ev s) = navigated s"
proof (cases ev)
  case (OnMessage d)
  with assms show ?thesis
    by (cases d) (auto simp: onmessage_def Let_def)
next
  case OnError
  with assms show ?thesis by (simp add: onerror_def)
qed

lemma run_not_closing:
  "\<forall>ev \<in> set evs. \<not> closes ev \<Longrightarrow> \<not> closed s \<Longrightarrow>
     \<not> closed (run cb aid evs s) \<and> navigated (run cb aid evs s) = navigated s"
  by (induction evs arbitrary: s) (simp_all add: handle_not_closing)

lemma run_append: "run cb aid (xs @ ys) s = run cb aid ys (run cb aid xs s)"
  by (induction xs arbitrary: s) simp_all

lemma run_until_closing:
  assumes "\<forall>e \<in> set pre. \<not> closes e" and "closes ev" and "\<not> closed s"
  shows "run cb aid (pre @ ev # post) s = handle cb aid ev (run cb aid pre s)"
  using assms run_not_closing[OF assms(1,3)]
  by (simp add: run_append run_closed handle_closing)

lemma find_closes_None: "find closes evs = None \<Longrightarrow> \<forall>e \<in> set evs. \<not> closes e"
  by (simp add: find_None_iff)

lemma find_closes_Some:
  "find closes evs = Some ev \<Longrightarrow>
     \<exists>pre post. evs = pre @ ev # post \<and> (\<forall>e \<in> set pre. \<not> closes e) \<and> closes ev"
proof (induction evs)
  case Nil then show ?case by simp
next
  case (Cons a evs)
  show ?case
  proof (cases "closes a")
    case True
    with Cons.prems have "a = ev" by simp
    with True have "a # evs = [] @ ev # evs \<and> (\<forall>e \<in> set []. \<not> closes e) \<and> closes ev" by simp
    then show ?thesis by blast
  next
    case False
    with Cons obtain pre post where "evs = pre @ ev # post" "\<forall>e \<in> set pre. \<not> closes e" "closes ev"
      by auto
    with False have "a # evs = (a # pre) @ ev # post \<and> (\<forall>e \<in> set (a # pre). \<not> closes e) \<and> closes ev"
      by simp
    then show ?thesis by blast
  qed
qed

text \<open>
  Claim C10. A session chunk records the new session id and does nothing else. The calls
  of \<open>onSessionCreated\<close> during a stream are: none, unless the first event that closes the
  event source is the sentinel \<^verbatim>\<open>[DONE]\<close>; and then exactly one, with the recorded id, when
  an id was recorded and the callback was supplied. A stream that ends with an error chunk
  or a connection error makes no call.
\<close>

theorem navigation_only_on_DONE:
  "(c_type ch = TSessionId \<and> truthy (c_session_id ch) \<and> \<not> closed s \<longrightarrow>
      onmessage cb aid (Json ch) s = s\<lparr>newSessionId := c_session_id ch\<rparr>)
   \<and> (find closes evs \<noteq> Some (OnMessage Done) \<longrightarrow> navigated (run cb aid evs (open_stream c)) = [])
   \<and> (\<forall>pre post. evs = pre @ OnMessage Done # post \<and> (\<forall>e \<in> set pre. \<not> closes e) \<longrightarrow>
         navigated (run cb aid evs (open_stream c)) =
           (if truthy (newSessionId (run cb aid pre (open_stream c))) \<and> cb
            then [val (newSessionId (run cb aid pre (open_stream c)))] else []))"
proof -
  define s0 where "s0 = open_stream c"
  have open0: "\<not> closed s0" and nav0: "navigated s0 = []"
    by (simp_all add: s0_def open_stream_def)
  have session: "c_type ch = TSessionId \<and> truthy (c_session_id ch) \<and> \<not> closed s \<longrightarrow>
            onmessage cb aid (Json ch) s = s\<lparr>newSessionId := c_session_id ch\<rparr>"
    by (simp add: onmessage_def)
  have other: "find closes evs \<noteq> Some (OnMessage Done) \<longrightarrow> navigated (run cb aid evs s0) = []"
  proof
    assume a: "find closes evs \<noteq> Some (OnMessage Done)"
    show "navigated (run cb aid evs s0) = []"
    proof (cases "find closes evs")
      case None
      then show ?thesis using run_not_closing[OF find_closes_None open0] nav0 by simp
    next
      case (Some ev)
      then obtain pre post where e: "evs = pre @ ev # post" "\<forall>e \<in> set pre. \<not> closes e" "closes ev"
        using find_closes_Some by blast
      from Some a have ne: "ev \<noteq> OnMessage Done" by simp
      have "\<not> closed (run cb aid pre s0)" "navigated (run cb aid pre s0) = []"
        using run_not_closing[OF e(2) open0] nav0 by simp_all
      then show ?thesis
        using run_until_closing[OF e(2,3) open0] handle_closing_navigated[OF e(3) _ ne] e(1)
        by simp
    qed
  qed
  have at_done: "\<forall>pre post. evs = pre @ OnMessage Done # post \<and> (\<forall>e \<in> set pre. \<not> closes e) \<longrightarrow>
             navigated (run cb aid evs s0) =
               (if truthy (newSessionId (run cb aid pre s0)) \<and> cb
                then [val (newSessionId (run cb aid pre s0))] else [])"
  proof (intro allI impI)
    fix pre post
    assume a: "evs = pre @ OnMessage Done # post \<and> (\<forall>e \<in> set pre. \<not> closes e)"
    then have p: "\<forall>e \<in> set pre. \<not> closes e" by simp
    have "\<not> closed (run cb aid pre s0)" "navigated (run cb aid pre s0) = []"
      using run_not_closing[OF p open0] nav0 by simp_all
    then show "navigated (run cb aid evs s0) =
               (if truthy (newSessionId (run cb aid pre s0)) \<and> cb
                then [val (newSessionId (run cb aid pre s0))] else [])"
      using run_until_closing[OF p _ open0, of "OnMessage Done"] a
      by (simp add: onmessage_def)
  qed
  from session other at_done show ?thesis unfolding s0_def by blast
qed

text \<open>
  A stream with a session chunk that ends with the sentinel, and one that ends with an
  error chunk.
\<close>

theorem navigation_only_on_DONE_witness:
  "navigated (run True 7 [deliver (FSession (asc ''s1'')), OnMessage (Json (text_chunk (asc ''hello''))),
                          OnMessage Done] (open_stream idle_client)) = [asc ''s1'']
   \<and> navigated (run True 7 [deliver (FSession (asc ''s1'')), OnMessage (Json (error_only (asc ''boom''))),
                          OnMessage Done] (open_stream idle_client)) = []"
proof -
  let ?s = "deliver (FSession (asc ''s1''))"
  let ?t = "OnMessage (Json (text_chunk (asc ''hello'')))"
  let ?e = "OnMessage (Json (error_only (asc ''boom'')))"
  have pre: "\<forall>e \<in> set [?s, ?t]. \<not> closes e"
    by (simp add: text_chunk_def asc_def)
  have rec: "newSessionId (run True 7 [?s, ?t] (open_stream idle_client)) = Some (asc ''s1'')"
    by (simp add: onmessage_def open_stream_def idle_client_def text_chunk_def asc_def Let_def)
  have f: "find closes [?s, ?e, OnMessage Done] \<noteq> Some (OnMessage Done)"
    by (simp add: error_only_def asc_def)
  have A: "navigated (run True 7 [?s, ?t, OnMessage Done] (open_stream idle_client)) = [asc ''s1'']"
    using navigation_only_on_DONE[of _ _ True 7 "[?s, ?t, OnMessage Done]" idle_client,
        THEN conjunct2, THEN conjunct2, rule_format, of "[?s, ?t]" "[]"] pre rec
    by (simp add: asc_def)
  have B: "navigated (run True 7 [?s, ?e, OnMessage Done] (open_stream idle_client)) = []"
    using navigation_only_on_DONE[of _ _ True 7 "[?s, ?e, OnMessage Done]" idle_client,
        THEN conjunct2, THEN conjunct1] f
    by blast
  from A B show ?thesis by blast
qed

lemma run_ends_closed:
  assumes "\<exists>e \<in> set evs. closes e" and "\<not> closed s"
  shows "closed (run cb aid evs s) \<and> \<not> isLoading (run cb aid evs s)"
proof -
  from assms(1) obtain ev where "find closes evs = Some ev"
    by (cases "find closes evs") (auto simp: find_None_iff)
  then obtain pre post where e: "evs = pre @ ev # post" "\<forall>e \<in> set pre. \<not> closes e" "closes ev"
    using find_closes_Some by blast
  have "\<not> closed (run cb aid pre s)" using run_not_closing[OF e(2) assms(2)] by simp
  then show ?thesis
    using run_until_closing[OF e(2,3) assms(2)] handle_closing[OF e(3)] e(1) by simp
qed

lemma spec_body_plain:
  "\<forall>k \<in> set ks. k = text_delta \<or> k = tool_invoked \<Longrightarrow> spec_body (ks @ [done_chunk])"
proof (induction ks)
  case Nil
  then show ?case by simp
next
  case (Cons k ks)
  then have "spec_body (ks @ [done_chunk])" by simp
  moreover obtain v vs where "ks @ [done_chunk] = v # vs" by (cases "ks @ [done_chunk]") auto
  ultimately show ?case using Cons.prems by auto
qed

lemma spec_order_plain:
  "ks \<noteq> [] \<Longrightarrow> hd ks \<noteq> session_started \<Longrightarrow> spec_order ks = spec_body ks"
  by (cases ks rule: spec_order.cases) auto

lemma plain_turn_in_order:
  assumes "\<forall>ch \<in> set inner. kind_of (FChunk ch) = text_delta \<or> kind_of (FChunk ch) = tool_invoked"
  shows "spec_order (map kind_of (generate session_id new_id inner False))"
proof -
  let ?ks = "map (\<lambda>ch. kind_of (FChunk ch)) inner"
  have all: "\<forall>k \<in> set ?ks. k = text_delta \<or> k = tool_invoked" using assms by auto
  have body: "spec_body (?ks @ [done_chunk])" using all by (rule spec_body_plain)
  have hd: "hd (?ks @ [done_chunk]) \<noteq> session_started"
    using all by (cases inner) auto
  have "spec_order (?ks @ [done_chunk])"
    using spec_order_plain[OF _ hd] body by simp
  then show ?thesis using body
    by (simp add: generate_def comp_def)
qed

text \<open>
  Claim C3, as the code has it. When the agent's generator finishes, the frames of a turn
  are: one session chunk first exactly when no session id was supplied, then the agent's
  chunks in the order produced, then the sentinel \<^verbatim>\<open>[DONE]\<close>, which occurs exactly once and
  last, also when an error chunk precedes it; when the agent's chunks are text and tool
  chunks only, this is the order of the specification. The client ends every such turn with the event
  source closed and not loading; it closes at the first error chunk, so that the frames
  after an error chunk, the sentinel among them, are not handled and no navigation happens.
\<close>

theorem chat_stream_order:
  "(\<exists>prefix. generate session_id new_id inner False = prefix @ map FChunk inner @ [FDone]
        \<and> prefix = (if truthy session_id then [] else [FSession new_id]))
   \<and> length (filter (\<lambda>f. f = FDone) (generate session_id new_id inner False)) = 1
   \<and> last (generate session_id new_id inner False) = FDone
   \<and> ((\<forall>ch \<in> set inner. kind_of (FChunk ch) = text_delta \<or> kind_of (FChunk ch) = tool_invoked) \<longrightarrow>
        spec_order (map kind_of (generate session_id new_id inner False)))
   \<and> closed (run cb aid (client_events (generate session_id new_id inner False)) (open_stream c))
   \<and> \<not> isLoading (run cb aid (client_events (generate session_id new_id inner False)) (open_stream c))
   \<and> (\<forall>pre ch post.
         client_events (generate session_id new_id inner False) = pre @ OnMessage (Json ch) # post
           \<and> (\<forall>e \<in> set pre. \<not> closes e) \<and> is_error_chunk ch \<longrightarrow>
         run cb aid (client_events (generate session_id new_id inner False)) (open_stream c) =
           onmessage cb aid (Json ch) (run cb aid pre (open_stream c))
         \<and> navigated (run cb aid (client_events (generate session_id new_id inner False)) (open_stream c)) = [])"
proof -
  let ?frames = "generate session_id new_id inner False"
  have open0: "\<not> closed (open_stream c)" and nav0: "navigated (open_stream c) = []"
    by (simp_all add: open_stream_def)
  have a: "\<exists>prefix. ?frames = prefix @ map FChunk inner @ [FDone]
        \<and> prefix = (if truthy session_id then [] else [FSession new_id])"
    by (simp add: generate_def)
  have nd: "filter (\<lambda>f. f = FDone) (map FChunk inner) = []"
    by (induction inner) simp_all
  have b: "length (filter (\<lambda>f. f = FDone) ?frames) = 1"
    by (simp add: generate_def nd)
  have c: "last ?frames = FDone" by (simp add: generate_def)
  have "\<exists>e \<in> set (client_events ?frames). closes e"
    by (simp add: client_events_def)
  then have d: "closed (run cb aid (client_events ?frames) (open_stream c))
       \<and> \<not> isLoading (run cb aid (client_events ?frames) (open_stream c))"
    using open0 by (rule run_ends_closed)
  have e: "\<forall>pre ch post.
         client_events ?frames = pre @ OnMessage (Json ch) # post
           \<and> (\<forall>e \<in> set pre. \<not> closes e) \<and> is_error_chunk ch \<longrightarrow>
         run cb aid (client_events ?frames) (open_stream c) =
           onmessage cb aid (Json ch) (run cb aid pre (open_stream c))
         \<and> navigated (run cb aid (client_events ?frames) (open_stream c)) = []"
  proof (intro allI impI)
    fix pre ch post
    assume h: "client_events ?frames = pre @ OnMessage (Json ch) # post
           \<and> (\<forall>e \<in> set pre. \<not> closes e) \<and> is_error_chunk ch"
    then have p: "\<forall>e \<in> set pre. \<not> closes e" and cl: "closes (OnMessage (Json ch))"
      by simp_all
    have r: "run cb aid (client_events ?frames) (open_stream c) =
             handle cb aid (OnMessage (Json ch)) (run cb aid pre (open_stream c))"
      using run_until_closing[OF p cl open0] h by simp
    have "\<not> closed (run cb aid pre (open_stream c))" "navigated (run cb aid pre (open_stream c)) = []"
      using run_not_closing[OF p open0] nav0 by simp_all
    then have "navigated (handle cb aid (OnMessage (Json ch)) (run cb aid pre (open_stream c))) = []"
      using handle_closing_navigated[OF cl] by simp
    with r show "run cb aid (client_events ?frames) (open_stream c) =
           onmessage cb aid (Json ch) (run cb aid pre (open_stream c))
         \<and> navigated (run cb aid (client_events ?frames) (open_stream c)) = []"
      by simp
  qed
  have f: "(\<forall>ch \<in> set inner. kind_of (FChunk ch) = text_delta \<or> kind_of (FChunk ch) = tool_invoked) \<longrightarrow>
        spec_order (map kind_of ?frames)"
    using plain_turn_in_order by blast
  from a b c d e f show ?thesis by blast
qed

text \<open>
  The order of the specification fails on a turn whose agent yields an error chunk: the
  sentinel follows the error chunk.
\<close>

theorem chat_stream_order_counterexample:
  "generate (Some (asc ''s1'')) (asc ''s2'') [error_only (asc ''timeout'')] False
     = [FChunk (error_only (asc ''timeout'')), FDone]
   \<and> \<not> spec_order (map kind_of
          (generate (Some (asc ''s1'')) (asc ''s2'') [error_only (asc ''timeout'')] False))"
  by (simp add: generate_def asc_def error_only_def)

text \<open>
  A turn without session id whose agent yields a piece of text and then an error: the
  frames, and the client at the end of the turn.
\<close>

theorem chat_stream_order_witness:
  "generate None (asc ''s2'') [text_chunk (asc ''hel''), error_only (asc ''timeout'')] False
     = [FSession (asc ''s2''), FChunk (text_chunk (asc ''hel'')),
        FChunk (error_only (asc ''timeout'')), FDone]
   \<and> closed (run True 7 (client_events (generate None (asc ''s2'')
               [text_chunk (asc ''hel''), error_only (asc ''timeout'')] False)) (open_stream idle_client))
   \<and> navigated (run True 7 (client_events (generate None (asc ''s2'')
               [text_chunk (asc ''hel''), error_only (asc ''timeout'')] False)) (open_stream idle_client)) = []"
proof -
  let ?inner = "[text_chunk (asc ''hel''), error_only (asc ''timeout'')]"
  let ?frames = "generate None (asc ''s2'') ?inner False"
  let ?pre = "[deliver (FSession (asc ''s2'')), OnMessage (Json (text_chunk (asc ''hel'')))]"
  have fr: "?frames = [FSession (asc ''s2''), FChunk (text_chunk (asc ''hel'')),
        FChunk (error_only (asc ''timeout'')), FDone]"
    by (simp add: generate_def)
  have ev: "client_events ?frames =
      ?pre @ OnMessage (Json (error_only (asc ''timeout''))) # [OnMessage Done, OnError]"
    by (simp add: fr client_events_def)
  have pre: "\<forall>e \<in> set ?pre. \<not> closes e"
    by (simp add: text_chunk_def asc_def)
  have err: "is_error_chunk (error_only (asc ''timeout''))"
    by (simp add: error_only_def asc_def)
  note t = chat_stream_order[of None "asc ''s2''" ?inner True 7 idle_client]
  have A: "closed (run True 7 (client_events ?frames) (open_stream idle_client))"
    using t by blast
  have B: "navigated (run True 7 (client_events ?frames) (open_stream idle_client)) = []"
    using t ev pre err by blast
  from fr A B show ?thesis by blast
qed

section \<open>Properties of the agent\<close>

lemmas run_simple = is_simple_def simple_greetings_def asc_def ascii_lower_def

text \<open>
  Claim C4, as the code has it. A message that the classifier finds simple (it contains a
  greeting and has fewer than 20 characters) makes no call of \<open>query_memory\<close>; every other
  message makes exactly one call, with the message and \<open>n_results = 2\<close>. A message of 20
  characters or more is never simple.
\<close>

theorem memory_step_fast_path:
  "(is_simple lower user_message \<longrightarrow> memory_step lower query_memory user_message = ([], None))
   \<and> (\<not> is_simple lower user_message \<longrightarrow>
        memory_step lower query_memory user_message =
          ([(user_message, 2)], Some (query_memory user_message 2)))
   \<and> (20 \<le> length user_message \<longrightarrow>
        fst (memory_step lower query_memory user_message) = [(user_message, 2)])"
  by (simp add: memory_step_def is_simple_def)

text \<open>
  A greeting is not queried; a short question without a greeting is.
\<close>

theorem memory_step_fast_path_witness:
  "is_simple ascii_lower (asc ''Hi'')
   \<and> memory_step ascii_lower no_memories (asc ''Hi'') = ([], None)
   \<and> \<not> is_simple ascii_lower (asc ''my birthday?'')
   \<and> memory_step ascii_lower no_memories (asc ''my birthday?'') = ([(asc ''my birthday?'', 2)], Some [])"
proof -
  have a: "is_simple ascii_lower (asc ''Hi'')" by (simp add: run_simple)
  have b: "\<not> is_simple ascii_lower (asc ''my birthday?'')" by (simp add: run_simple)
  show ?thesis
    using a b memory_step_fast_path[of ascii_lower "asc ''Hi''" no_memories]
      memory_step_fast_path[of ascii_lower "asc ''my birthday?''" no_memories]
    by (simp add: no_memories_def)
qed

text \<open>
  A message that is not simple is queried with \<open>n_results = 2\<close>, not 5.
\<close>

theorem memory_step_counterexample:
  "\<not> is_simple ascii_lower (asc ''my birthday?'')
   \<and> fst (memory_step ascii_lower no_memories (asc ''my birthday?'')) \<noteq> [(asc ''my birthday?'', 5)]"
  by (simp add: memory_step_def run_simple)

lemma agent_loop_trips:
  "fst (snd (agent_loop cap invoke execute left trips h)) \<le> trips + left"
proof (induction left arbitrary: trips h)
  case 0
  then show ?case by (simp split: reply.splits)
next
  case (Suc left)
  show ?case
  proof (cases "invoke h")
    case (ToolCalls cs)
    then show ?thesis
      using Suc.IH[of "Suc trips" "foldl (\<lambda>h c. execute c h) h cs"] by simp
  qed simp_all
qed

lemma agent_loop_always_tools:
  assumes "\<forall>h. \<exists>cs. invoke h = ToolCalls cs"
  shows "fst (agent_loop cap invoke execute left trips h) = Answering (UnableToComplete cap)
       \<and> fst (snd (agent_loop cap invoke execute left trips h)) = trips + left"
proof (induction left arbitrary: trips h)
  case 0
  from assms obtain cs where "invoke h = ToolCalls cs" by blast
  then show ?case by simp
next
  case (Suc left)
  from assms obtain cs where "invoke h = ToolCalls cs" by blast
  then show ?case
    using Suc.IH[of "Suc trips" "foldl (\<lambda>h c. execute c h) h cs"] by simp
qed

text \<open>
  Claim C5. A turn makes at most \<open>cap\<close> tool round-trips, whatever the model backend
  answers; against a backend that requests a tool call at every invocation the turn makes
  exactly \<open>cap\<close> round-trips and then ends in \<open>Answering\<close> with the synthesized
  "unable to complete after \<open>cap\<close> tool calls" payload. The loop is a total function: it
  returns for every backend.
\<close>

theorem agent_loop_bounded:
  "fst (snd (run_turn cap invoke execute h)) \<le> cap
   \<and> ((\<forall>h. \<exists>cs. invoke h = ToolCalls cs) \<longrightarrow>
        fst (run_turn cap invoke execute h) = Answering (UnableToComplete cap)
        \<and> fst (snd (run_turn cap invoke execute h)) = cap)"
  using agent_loop_trips[of cap invoke execute cap 0 h]
    agent_loop_always_tools[of invoke cap execute cap 0 h]
  by (simp add: run_turn_def)

text \<open>
  A backend that always asks for one tool, under the default bound.
\<close>

theorem agent_loop_bounded_witness:
  "(\<forall>h::nat. \<exists>cs. (\<lambda>h. ToolCalls [()]) h = ToolCalls cs)
   \<and> run_turn tool_round_trip_cap (\<lambda>h::nat. ToolCalls [()]) (\<lambda>c h. Suc h) 0
       = (Answering (UnableToComplete 5), 5, 5)"
proof -
  have a: "\<forall>h::nat. \<exists>cs. (\<lambda>h. ToolCalls [()]) h = ToolCalls cs" by simp
  have b: "snd (snd (run_turn 5 (\<lambda>h::nat. ToolCalls [()]) (\<lambda>c h. Suc h) 0)) = 5"
    by (simp add: run_turn_def eval_nat_numeral)
  show ?thesis
    using a b agent_loop_bounded[of 5 "\<lambda>h::nat. ToolCalls [()]" "\<lambda>c h. Suc h" 0]
    by (simp add: tool_round_trip_cap_def prod_eq_iff)
qed




text \<open>
  Claim C8, at a failing input. An exception of the agent whose text names neither
  \<open>tool_use_failed\<close> nor \<open>rate_limit\<close> is copied into the response after the prefix, and
  the client shows the \<open>error\<close> field of a chunk word for word after its own prefix.
\<close>

theorem raw_error_reaches_client:
  "chat_with_agent ascii_lower (Inr ()) (Inr [] :: ustring + ustring list)
       (Inl (asc ''attempt to write a readonly database''))
     = \<lparr>response = raw_error_prefix @ asc ''attempt to write a readonly database'',
        error = None\<rparr>
   \<and> map msg_content (messages (onmessage True 7
          (Json (error_only (asc ''attempt to write a readonly database'')))
          (open_stream idle_client)))
     = [error_prefix @ asc ''attempt to write a readonly database'']"
  by (simp add: chat_with_agent_def asc_def ascii_lower_def onmessage_def open_stream_def
      idle_client_def error_only_def)

end
